theory Spec2Isabelle
  imports Main "HOL-Library.AList"
begin

section \<open>dnspin: pinning host names in /etc/hosts\<close>

text \<open>
  A shallow embedding of \<^verbatim>\<open>dnspin.go\<close>. Go strings are byte strings and are modelled
  by \<^typ>\<open>string\<close>. A file is modelled by the sequence of lines that
  \<^verbatim>\<open>bufio.Scanner\<close> delivers for it, and the file that is written by the sequence of
  lines handed to \<^verbatim>\<open>Fprintln\<close> and \<^verbatim>\<open>Fprintf\<close> (every format used ends in a line
  break).
\<close>

subsection \<open>Library functions on strings\<close>

abbreviation TAB :: char where
  "TAB \<equiv> CHR 0x09"

text \<open>
  \<^verbatim>\<open>strings.Fields\<close> splits a string around each run of white space, as defined by
  \<^verbatim>\<open>unicode.IsSpace\<close>, and returns the non-empty pieces. The white space runes are the six
  ASCII ones, U+0085, U+00A0, U+1680, U+2000 to U+200A, U+2028, U+2029, U+202F, U+205F and
  U+3000; on a byte string they appear as their UTF-8 encodings.
\<close>

definition ascii_space :: "char \<Rightarrow> bool" where
  "ascii_space c \<longleftrightarrow> c = CHR 0x09 \<or> c = CHR 0x0A \<or> c = CHR 0x0B \<or> c = CHR 0x0C
     \<or> c = CHR 0x0D \<or> c = CHR 0x20"

definition space2 :: "char \<Rightarrow> char \<Rightarrow> bool" where
  "space2 c d \<longleftrightarrow> c = CHR 0xC2 \<and> (d = CHR 0x85 \<or> d = CHR 0xA0)"

definition space3 :: "char \<Rightarrow> char \<Rightarrow> char \<Rightarrow> bool" where
  "space3 c d e \<longleftrightarrow>
     (c = CHR 0xE1 \<and> d = CHR 0x9A \<and> e = CHR 0x80)
   \<or> (c = CHR 0xE2 \<and> d = CHR 0x80 \<and>
        (e = CHR 0x80 \<or> e = CHR 0x81 \<or> e = CHR 0x82 \<or> e = CHR 0x83 \<or> e = CHR 0x84
       \<or> e = CHR 0x85 \<or> e = CHR 0x86 \<or> e = CHR 0x87 \<or> e = CHR 0x88 \<or> e = CHR 0x89
       \<or> e = CHR 0x8A \<or> e = CHR 0xA8 \<or> e = CHR 0xA9 \<or> e = CHR 0xAF))
   \<or> (c = CHR 0xE2 \<and> d = CHR 0x81 \<and> e = CHR 0x9F)
   \<or> (c = CHR 0xE3 \<and> d = CHR 0x80 \<and> e = CHR 0x80)"

text \<open>The number of bytes of the white space rune a string starts with, 0 when it starts
  with none.\<close>

fun space_len :: "string \<Rightarrow> nat" where
  "space_len [] = 0"
| "space_len [c] = (if ascii_space c then 1 else 0)"
| "space_len [c, d] = (if ascii_space c then 1 else if space2 c d then 2 else 0)"
| "space_len (c # d # e # cs) =
     (if ascii_space c then 1 else if space2 c d then 2 else if space3 c d e then 3 else 0)"

fun fields_from :: "string \<Rightarrow> string \<Rightarrow> string list" where
  "fields_from cur [] = (if cur = [] then [] else [cur])"
| "fields_from cur (c # cs) =
     (if space_len (c # cs) = 0 then fields_from (cur @ [c]) cs
      else (if cur = [] then [] else [cur]) @ fields_from [] (drop (space_len (c # cs) - 1) cs))"

definition Fields :: "string \<Rightarrow> string list" where
  "Fields s = fields_from [] s"

definition HasPrefix :: "string \<Rightarrow> string \<Rightarrow> bool" where
  "HasPrefix s p \<longleftrightarrow> length p \<le> length s \<and> take (length p) s = p"

text \<open>\<^verbatim>\<open>%d\<close> of a non-negative number.\<close>

definition digit :: "nat \<Rightarrow> char" where
  "digit d = ''0123456789'' ! d"

fun decimal :: "nat \<Rightarrow> string" where
  "decimal n = (if n < 10 then [digit n] else decimal (n div 10) @ [digit (n mod 10)])"

subsection \<open>Constants and the host record\<close>

record host_config =
  hostname :: string
  dns_server :: string
  ip_address :: string

definition NIL :: string where "NIL = ''NIL''"
definition ERROR :: string where "ERROR = ''ERROR''"
definition MISSING :: string where "MISSING = ''MISSING''"

definition DNSPIN_BEGIN :: string where "DNSPIN_BEGIN = ''### DNSPIN BEGIN ###''"
definition DNSPIN_END :: string where "DNSPIN_END = ''### DNSPIN END #####''"

definition PRE_PIN :: int where "PRE_PIN = 0"
definition IN_PIN :: int where "IN_PIN = 1"
definition POST_PIN :: int where "POST_PIN = 2"

datatype io_step = OpenStep | TempFileStep | ChmodStep | FlushStep | RenameStep

datatype error = IOError io_step | ErrorString string

subsection \<open>lookupIP\<close>

text \<open>
  The answer section of a reply: an A record with the text of its address
  (\<^verbatim>\<open>a.A.String()\<close>), or a record of another type. The exchange with the server is the
  environment's: it fails with an error or delivers the answers.
\<close>

datatype rr = A string | OtherRR

fun first_A :: "rr list \<Rightarrow> string" where
  "first_A [] = MISSING"
| "first_A (A a # ans) = a"
| "first_A (OtherRR # ans) = first_A ans"

definition Fqdn :: "string \<Rightarrow> string" where
  "Fqdn s = (if s \<noteq> [] \<and> last s = CHR ''.'' then s else s @ ''.'')"

definition lookupIP ::
  "(string \<Rightarrow> string \<Rightarrow> error + rr list) \<Rightarrow> string \<Rightarrow> string \<Rightarrow> error + string" where
  "lookupIP exchange host server =
     (case exchange (Fqdn host) (server @ '':53'') of
        Inl err \<Rightarrow> Inl err
      | Inr answer \<Rightarrow> Inr (first_A answer))"

subsection \<open>loadHostConfig\<close>

text \<open>The scanning loop: the line number, the hosts so far, the lines still to read.
  The function returns the hosts it has collected together with the error, as the source
  does.\<close>

fun load_lines ::
  "nat \<Rightarrow> host_config list \<Rightarrow> string list \<Rightarrow> host_config list \<times> error option" where
  "load_lines lineno hosts [] = (hosts, None)"
| "load_lines lineno hosts (line # rest) =
     (if length line > 0 \<and> \<not> HasPrefix line ''#'' then
        (let fields = Fields line in
         if length fields \<noteq> 2 then
           (hosts, Some (ErrorString (''Unexpected input on line '' @ decimal (lineno + 1)
                                        @ '': '' @ line)))
         else load_lines (lineno + 1)
                (hosts @ [\<lparr>hostname = fields ! 0, dns_server = fields ! 1, ip_address = NIL\<rparr>])
                rest)
      else load_lines (lineno + 1) hosts rest)"

definition loadHostConfig ::
  "string list option \<Rightarrow> host_config list \<times> error option" where
  "loadHostConfig inp =
     (case inp of
        None \<Rightarrow> ([], Some (IOError OpenStep))
      | Some lines \<Rightarrow> load_lines 0 [] lines)"

subsection \<open>writeHostsFile: reading the regions\<close>

record scan_state =
  location :: int
  pre_lines :: "string list"
  pin_lines :: "string list"
  post_lines :: "string list"

definition scan_init :: scan_state where
  "scan_init = \<lparr>location = PRE_PIN, pre_lines = [], pin_lines = [], post_lines = []\<rparr>"

text \<open>
  One turn of the scanning loop. In the last branch the source assigns
  \<^verbatim>\<open>pin_lines = append(post_lines, line)\<close>: \<^verbatim>\<open>post_lines\<close> keeps its length 0, and
  \<^verbatim>\<open>pin_lines\<close> becomes the one-element slice holding the line.
\<close>

definition scan_line :: "scan_state \<Rightarrow> string \<Rightarrow> scan_state" where
  "scan_line st line =
     (if line = DNSPIN_BEGIN then st\<lparr>location := IN_PIN\<rparr>
      else if line = DNSPIN_END then st\<lparr>location := POST_PIN\<rparr>
      else if location st = PRE_PIN then st\<lparr>pre_lines := pre_lines st @ [line]\<rparr>
      else if location st = IN_PIN then
        (if \<not> HasPrefix line ''#'' then st\<lparr>pin_lines := pin_lines st @ [line]\<rparr> else st)
      else if location st = POST_PIN then st\<lparr>pin_lines := post_lines st @ [line]\<rparr>
      else st)"

fun scan_lines :: "scan_state \<Rightarrow> string list \<Rightarrow> scan_state" where
  "scan_lines st [] = st"
| "scan_lines st (line # rest) = scan_lines (scan_line st line) rest"

subsection \<open>writeHostsFile: the current mappings and the decision to rewrite\<close>

text \<open>The Go map is an association list with distinct keys; its \<^verbatim>\<open>len\<close> is the length
  of the list.\<close>

type_synonym mappings = "(string \<times> string) list"

fun parse_mappings :: "mappings \<Rightarrow> string list \<Rightarrow> mappings" where
  "parse_mappings m [] = m"
| "parse_mappings m (line # rest) =
     (let fields = Fields line in
      if length fields = 2 then parse_mappings (AList.update (fields ! 1) (fields ! 0) m) rest
      else parse_mappings m rest)"

text \<open>The loop over the hosts, with its \<^verbatim>\<open>break\<close>.\<close>

fun check_hosts :: "mappings \<Rightarrow> bool \<Rightarrow> host_config list \<Rightarrow> bool" where
  "check_hosts m needs_rewrite [] = needs_rewrite"
| "check_hosts m needs_rewrite (host # rest) =
     (case map_of m (hostname host) of
        None \<Rightarrow> True
      | Some ip \<Rightarrow> if ip \<noteq> ip_address host then True else check_hosts m needs_rewrite rest)"

definition needs_rewrite :: "mappings \<Rightarrow> host_config list \<Rightarrow> bool" where
  "needs_rewrite m hosts = check_hosts m (length m \<noteq> length hosts) hosts"

subsection \<open>writeHostsFile: the new content\<close>

definition render_host :: "mappings \<Rightarrow> host_config \<Rightarrow> string list" where
  "render_host m host =
     (if ip_address host = ERROR then
        (case map_of m (hostname host) of
           Some ip \<Rightarrow>
             [''# '' @ hostname host @ '': cached value, error during lookup to ''
                @ dns_server host,
              ip @ [TAB] @ hostname host]
         | None \<Rightarrow> [''# '' @ hostname host @ '': error during lookup to '' @ dns_server host])
      else if ip_address host \<noteq> MISSING then [ip_address host @ [TAB] @ hostname host]
      else [])"

definition render_hosts :: "mappings \<Rightarrow> host_config list \<Rightarrow> string list" where
  "render_hosts m hosts = concat (map (render_host m) hosts)"

definition new_content :: "scan_state \<Rightarrow> mappings \<Rightarrow> host_config list \<Rightarrow> string list" where
  "new_content st m hosts =
     pre_lines st @ [DNSPIN_BEGIN] @ render_hosts m hosts @ [DNSPIN_END] @ post_lines st"

subsection \<open>writeHostsFile: the files\<close>

text \<open>
  The file system maps a path to the mode and the lines of the file there. The environment
  says which of the calls that can return an error does so, which suffix
  \<^verbatim>\<open>ioutil.TempFile\<close> picks for the name of the new file, and how many lines have reached
  the file when flushing fails.
\<close>

record file_node =
  mode :: nat
  content :: "string list"

type_synonym filesystem = "string \<Rightarrow> file_node option"

record env =
  fails :: "io_step \<Rightarrow> bool"
  random :: string
  flushed :: nat

definition HOSTS_FILE :: string where "HOSTS_FILE = ''/etc/hosts''"

definition MODE_0600 :: nat where "MODE_0600 = 6 * 64"
definition MODE_0644 :: nat where "MODE_0644 = 6 * 64 + 4 * 8 + 4"

text \<open>The name of the file that \<^verbatim>\<open>ioutil.TempFile("/tmp", "hosts")\<close> creates.\<close>

definition temp_name :: "string \<Rightarrow> string \<Rightarrow> string \<Rightarrow> string" where
  "temp_name dir pre rnd = dir @ ''/'' @ pre @ rnd"

definition out_name :: "env \<Rightarrow> string" where
  "out_name e = temp_name ''/tmp'' ''hosts'' (random e)"

text \<open>From \<^verbatim>\<open>out.Chmod\<close> to \<^verbatim>\<open>os.Rename\<close>, on the file system in which the temporary
  file \<^verbatim>\<open>out\<close> exists.\<close>

definition write_and_rename ::
  "env \<Rightarrow> string \<Rightarrow> string list \<Rightarrow> filesystem \<Rightarrow> (error + bool) \<times> filesystem" where
  "write_and_rename e out lines fs =
     (if fails e ChmodStep then (Inl (IOError ChmodStep), fs)
      else if fails e FlushStep then
        (Inl (IOError FlushStep),
         fs(out \<mapsto> \<lparr>mode = MODE_0644, content = take (flushed e) lines\<rparr>))
      else if fails e RenameStep then
        (Inl (IOError RenameStep), fs(out \<mapsto> \<lparr>mode = MODE_0644, content = lines\<rparr>))
      else
        (Inr True, (fs(out := None))(HOSTS_FILE \<mapsto> \<lparr>mode = MODE_0644, content = lines\<rparr>)))"

text \<open>The deferred \<^verbatim>\<open>os.Remove(out.Name())\<close>, run on every return after the temporary
  file was created.\<close>

definition deferred_remove ::
  "string \<Rightarrow> (error + bool) \<times> filesystem \<Rightarrow> (error + bool) \<times> filesystem" where
  "deferred_remove out r = (fst r, (snd r)(out := None))"

definition writeHostsFile ::
  "env \<Rightarrow> host_config list \<Rightarrow> filesystem \<Rightarrow> (error + bool) \<times> filesystem" where
  "writeHostsFile e hosts fs =
     (case (if fails e OpenStep then None else fs HOSTS_FILE) of
        None \<Rightarrow> (Inl (IOError OpenStep), fs)
      | Some inp \<Rightarrow>
          (let st = scan_lines scan_init (content inp);
               current_mappings = parse_mappings [] (pin_lines st)
           in if \<not> needs_rewrite current_mappings hosts then (Inr False, fs)
              else if fails e TempFileStep then (Inl (IOError TempFileStep), fs)
              else
                (let out = out_name e
                 in deferred_remove out
                      (write_and_rename e out (new_content st current_mappings hosts)
                         (fs(out \<mapsto> \<lparr>mode = MODE_0600, content = []\<rparr>))))))"

subsection \<open>main: one turn of the polling loop\<close>

definition resolve_host ::
  "(string \<Rightarrow> string \<Rightarrow> error + rr list) \<Rightarrow> host_config \<Rightarrow> host_config" where
  "resolve_host exchange host =
     (case lookupIP exchange (hostname host) (dns_server host) of
        Inl err \<Rightarrow> host\<lparr>ip_address := ERROR\<rparr>
      | Inr ip \<Rightarrow> host\<lparr>ip_address := ip\<rparr>)"

definition poll_once ::
  "(string \<Rightarrow> string \<Rightarrow> error + rr list) \<Rightarrow> env \<Rightarrow> host_config list \<times> filesystem
     \<Rightarrow> (error + bool) \<times> host_config list \<times> filesystem" where
  "poll_once exchange e s =
     (let hosts = map (resolve_host exchange) (fst s);
          r = writeHostsFile e hosts (snd s)
      in (fst r, hosts, snd r))"

text \<open>The start of \<^verbatim>\<open>main\<close>: an error of \<^verbatim>\<open>loadHostConfig\<close> ends the process.\<close>

definition main_load :: "string list option \<Rightarrow> error + host_config list" where
  "main_load inp =
     (case loadHostConfig inp of
        (hosts, Some err) \<Rightarrow> Inl err
      | (hosts, None) \<Rightarrow> Inr hosts)"

subsection \<open>Notions used in the statements\<close>

text \<open>A string without white space, and a field: a non-empty one.\<close>

fun no_space :: "string \<Rightarrow> bool" where
  "no_space [] = True"
| "no_space (c # cs) = (space_len (c # cs) = 0 \<and> no_space cs)"

definition token :: "string \<Rightarrow> bool" where
  "token s \<longleftrightarrow> s \<noteq> [] \<and> no_space s"

text \<open>
  A host whose lookup delivered an address: the name is a field of a configuration line,
  the address is neither of the two marks \<^verbatim>\<open>ERROR\<close> and \<^verbatim>\<open>MISSING\<close>, and it is the text
  of an address: a field that does not start like a comment.
\<close>

definition resolved :: "host_config \<Rightarrow> bool" where
  "resolved host \<longleftrightarrow>
     token (hostname host) \<and> token (ip_address host) \<and> \<not> HasPrefix (ip_address host) ''#''
     \<and> ip_address host \<noteq> ERROR \<and> ip_address host \<noteq> MISSING"

fun all_resolved :: "host_config list \<Rightarrow> bool" where
  "all_resolved [] = True"
| "all_resolved (host # rest) = (resolved host \<and> all_resolved rest)"

definition mapping_line :: "host_config \<Rightarrow> string" where
  "mapping_line host = ip_address host @ [TAB] @ hostname host"

text \<open>The lines of a file that the scanning loop meets while its location is
  \<^verbatim>\<open>POST_PIN\<close>, and the files that have none.\<close>

fun lines_after_end :: "int \<Rightarrow> string list \<Rightarrow> string list" where
  "lines_after_end loc [] = []"
| "lines_after_end loc (line # rest) =
     (if line = DNSPIN_BEGIN then lines_after_end IN_PIN rest
      else if line = DNSPIN_END then lines_after_end POST_PIN rest
      else if loc = POST_PIN then line # lines_after_end loc rest
      else lines_after_end loc rest)"

text \<open>The addresses of the A records among the answers.\<close>

fun addresses :: "rr list \<Rightarrow> string list" where
  "addresses [] = []"
| "addresses (A a # ans) = a # addresses ans"
| "addresses (OtherRR # ans) = addresses ans"

text \<open>The lines of the configuration that are passed over, the lines without a field
  (empty, or of white space only), and the lines that are in order.\<close>

definition skipped :: "string \<Rightarrow> bool" where
  "skipped line \<longleftrightarrow> line = [] \<or> HasPrefix line ''#''"

definition blank :: "string \<Rightarrow> bool" where
  "blank line \<longleftrightarrow> Fields line = []"

definition well_formed :: "string \<Rightarrow> bool" where
  "well_formed line \<longleftrightarrow> skipped line \<or> length (Fields line) = 2"

definition entry :: "string \<Rightarrow> host_config" where
  "entry line = \<lparr>hostname = Fields line ! 0, dns_server = Fields line ! 1, ip_address = NIL\<rparr>"

text \<open>The directory of a path: the path up to its last slash.\<close>

definition dir_name :: "string \<Rightarrow> string" where
  "dir_name p = rev (dropWhile (\<lambda>c. c \<noteq> CHR ''/'') (rev p))"

text \<open>The lines of a file that the scanning loop meets while its location is
  \<^verbatim>\<open>IN_PIN\<close>, and the mappings that the lines among them that are no comments hold.\<close>

fun lines_in_region :: "int \<Rightarrow> string list \<Rightarrow> string list" where
  "lines_in_region loc [] = []"
| "lines_in_region loc (line # rest) =
     (if line = DNSPIN_BEGIN then lines_in_region IN_PIN rest
      else if line = DNSPIN_END then lines_in_region POST_PIN rest
      else if loc = IN_PIN then line # lines_in_region loc rest
      else lines_in_region loc rest)"

definition region_mappings :: "string list \<Rightarrow> mappings" where
  "region_mappings lines =
     parse_mappings [] (filter (\<lambda>l. \<not> HasPrefix l ''#'') (lines_in_region PRE_PIN lines))"

text \<open>What \<^verbatim>\<open>writeHostsFile\<close> computes from the lines of the hosts file: the mappings it
  compares the hosts with, and the lines it writes.\<close>

definition read_mappings :: "string list \<Rightarrow> mappings" where
  "read_mappings lines = parse_mappings [] (pin_lines (scan_lines scan_init lines))"

definition merged_content :: "string list \<Rightarrow> host_config list \<Rightarrow> string list" where
  "merged_content lines hosts =
     new_content (scan_lines scan_init lines) (read_mappings lines) hosts"

text \<open>An environment in which no call fails, and a file system that holds the hosts
  file only.\<close>

definition no_faults :: env where
  "no_faults = \<lparr>fails = (\<lambda>s. False), random = ''421337'', flushed = 0\<rparr>"

definition only_hosts_file :: "string list \<Rightarrow> filesystem" where
  "only_hosts_file lines =
     (\<lambda>p. if p = HOSTS_FILE then Some \<lparr>mode = MODE_0644, content = lines\<rparr> else None)"

declare decimal.simps [simp del]

section \<open>Properties\<close>

subsection \<open>Fields\<close>

lemma space_len_le: "space_len s \<le> length s"
  by (cases s rule: space_len.cases) auto

lemma not_space_TAB: "\<not> space2 c TAB" "\<not> space3 c TAB e" "\<not> space3 c d TAB"
  by (auto simp: space2_def space3_def)

lemma space_len_append_tab: "u \<noteq> [] \<Longrightarrow> space_len (u @ TAB # t) = space_len u"
proof (cases u rule: space_len.cases)
  case 1 then show "u \<noteq> [] \<Longrightarrow> ?thesis" by simp
next
  case (2 c) 
  then show ?thesis by (cases t) (simp_all add: not_space_TAB)
next
  case (3 c d)
  then show ?thesis by (simp add: not_space_TAB)
next
  case (4 c d e cs)
  then show ?thesis by simp
qed

lemma space_len_ascii: "ascii_space c \<Longrightarrow> space_len (c # t) = 1"
  by (cases "c # t" rule: space_len.cases) auto

lemma space_len_TAB: "space_len (TAB # t) = 1"
  by (rule space_len_ascii) (simp add: ascii_space_def)

lemma fields_from_append_tab:
  "fields_from cur (x @ TAB # t) = fields_from cur x @ fields_from [] t"
proof (induction cur x rule: fields_from.induct)
  case (1 cur)
  then show ?case by (simp add: space_len_TAB)
next
  case (2 cur c cs)
  have eq: "space_len ((c # cs) @ TAB # t) = space_len (c # cs)"
    by (rule space_len_append_tab) simp
  show ?case
  proof (cases "space_len (c # cs) = 0")
    case True
    with 2 eq show ?thesis by simp
  next
    case False
    have "space_len (c # cs) - 1 \<le> length cs"
      using space_len_le [of "c # cs"] by simp
    with 2 eq False show ?thesis by simp
  qed
qed

lemma fields_from_no_space:
  "no_space t \<Longrightarrow> fields_from cur t = (if cur @ t = [] then [] else [cur @ t])"
  by (induction t arbitrary: cur) simp_all

lemma Fields_append_tab_token:
  "token b \<Longrightarrow> Fields (a @ TAB # b) = Fields a @ [b]"
  using fields_from_append_tab [of "[]" a b]
  by (simp add: Fields_def token_def fields_from_no_space)

lemma Fields_token: "token a \<Longrightarrow> Fields a = [a]"
  by (simp add: Fields_def token_def fields_from_no_space)

lemma Fields_mapping_line:
  "token (ip_address h) \<Longrightarrow> token (hostname h) \<Longrightarrow> Fields (mapping_line h) = [ip_address h, hostname h]"
  by (simp add: mapping_line_def Fields_append_tab_token Fields_token)

subsection \<open>The scanning loop\<close>

lemma scan_lines_append:
  "scan_lines st (xs @ ys) = scan_lines (scan_lines st xs) ys"
  by (induction xs arbitrary: st) simp_all

lemma scan_lines_pre:
  "location st = PRE_PIN \<Longrightarrow> DNSPIN_BEGIN \<notin> set ls \<Longrightarrow> DNSPIN_END \<notin> set ls
   \<Longrightarrow> scan_lines st ls = st\<lparr>pre_lines := pre_lines st @ ls\<rparr>"
  by (induction ls arbitrary: st) (auto simp: scan_line_def)

lemma scan_lines_in:
  "location st = IN_PIN \<Longrightarrow> DNSPIN_BEGIN \<notin> set ls \<Longrightarrow> DNSPIN_END \<notin> set ls
   \<Longrightarrow> scan_lines st ls = st\<lparr>pin_lines := pin_lines st @ filter (\<lambda>l. \<not> HasPrefix l ''#'') ls\<rparr>"
  by (induction ls arbitrary: st) (auto simp: scan_line_def IN_PIN_def PRE_PIN_def)

lemma post_lines_scan_line: "post_lines (scan_line st l) = post_lines st"
  by (simp add: scan_line_def)

lemma post_lines_scan_lines: "post_lines (scan_lines st ls) = post_lines st"
  by (induction ls arbitrary: st) (simp_all add: post_lines_scan_line)

lemma post_lines_scan_init: "post_lines (scan_lines scan_init ls) = []"
  by (simp add: post_lines_scan_lines scan_init_def)

lemma pre_lines_scan_moved:
  "location st \<noteq> PRE_PIN \<Longrightarrow> pre_lines (scan_lines st ls) = pre_lines st"
  by (induction ls arbitrary: st) (simp_all add: scan_line_def IN_PIN_def PRE_PIN_def POST_PIN_def)

lemma pre_lines_scan_lines:
  "location st = PRE_PIN \<Longrightarrow>
   pre_lines (scan_lines st ls) =
     pre_lines st @ takeWhile (\<lambda>l. l \<noteq> DNSPIN_BEGIN \<and> l \<noteq> DNSPIN_END) ls"
  by (induction ls arbitrary: st)
     (simp_all add: scan_line_def pre_lines_scan_moved IN_PIN_def PRE_PIN_def POST_PIN_def)

lemma sentinel_free_scan_line:
  "s = DNSPIN_BEGIN \<or> s = DNSPIN_END \<Longrightarrow>
   s \<notin> set (pre_lines st) \<union> set (pin_lines st) \<union> set (post_lines st) \<Longrightarrow>
   s \<notin> set (pre_lines (scan_line st l)) \<union> set (pin_lines (scan_line st l))
         \<union> set (post_lines (scan_line st l))"
  by (auto simp: scan_line_def)

lemma sentinel_free_scan_lines:
  "s = DNSPIN_BEGIN \<or> s = DNSPIN_END \<Longrightarrow>
   s \<notin> set (pre_lines st) \<union> set (pin_lines st) \<union> set (post_lines st) \<Longrightarrow>
   s \<notin> set (pre_lines (scan_lines st ls)) \<union> set (pin_lines (scan_lines st ls))
         \<union> set (post_lines (scan_lines st ls))"
proof (induction ls arbitrary: st)
  case Nil
  then show ?case by simp
next
  case (Cons l ls)
  from sentinel_free_scan_line [OF Cons.prems] Cons.IH [OF Cons.prems(1)]
  show ?case by simp
qed

subsection \<open>The mappings\<close>

lemma check_hosts_iff:
  "check_hosts m b hosts \<longleftrightarrow>
     b \<or> (\<exists>h \<in> set hosts. map_of m (hostname h) \<noteq> Some (ip_address h))"
  by (induction hosts) (auto split: option.splits)

lemma needs_rewrite_iff:
  "needs_rewrite m hosts \<longleftrightarrow>
     length m \<noteq> length hosts \<or> (\<exists>h \<in> set hosts. map_of m (hostname h) \<noteq> Some (ip_address h))"
  by (simp add: needs_rewrite_def check_hosts_iff)

lemma all_resolved_iff: "all_resolved hosts \<longleftrightarrow> (\<forall>h \<in> set hosts. resolved h)"
  by (induction hosts) simp_all

lemma parse_mappings_lines:
  "all_resolved hosts \<Longrightarrow>
   parse_mappings m (map mapping_line hosts) =
     fold (\<lambda>h. AList.update (hostname h) (ip_address h)) hosts m"
  by (induction hosts arbitrary: m) (simp_all add: resolved_def Fields_mapping_line)

lemma map_of_fold_update:
  "map_of (fold (\<lambda>h. AList.update (k h) (v h)) hosts m) =
     map_of m ++ map_of (rev (map (\<lambda>h. (k h, v h)) hosts))"
proof (induction hosts arbitrary: m)
  case Nil
  then show ?case by simp
next
  case (Cons h hosts)
  show ?case
    by (rule ext) (simp add: Cons.IH update_conv' map_add_def split: option.splits)
qed

lemma update_new_key: "k \<notin> fst ` set m \<Longrightarrow> AList.update k v m = m @ [(k, v)]"
  by (induction m) auto

lemma fold_update_distinct:
  "distinct (map k hosts) \<Longrightarrow> \<forall>h \<in> set hosts. k h \<notin> fst ` set m \<Longrightarrow>
   fold (\<lambda>h. AList.update (k h) (v h)) hosts m = m @ map (\<lambda>h. (k h, v h)) hosts"
proof (induction hosts arbitrary: m)
  case Nil
  then show ?case by simp
next
  case (Cons h hosts)
  have "\<forall>x \<in> set hosts. k x \<notin> fst ` set (m @ [(k h, v h)])"
    using Cons.prems by (auto simp: image_iff)
  with Cons show ?case by (simp add: update_new_key)
qed

subsection \<open>lookupIP\<close>

lemma first_A_addresses:
  "first_A answer = (case addresses answer of [] \<Rightarrow> MISSING | a # others \<Rightarrow> a)"
  by (induction answer rule: first_A.induct) simp_all

text \<open>
  Claim C8. \<^verbatim>\<open>lookupIP\<close> has three outcomes, decided by the exchange with the server:
  when the exchange fails it returns the error; when it succeeds and no answer is an A
  record it returns \<^verbatim>\<open>MISSING\<close> and no error; when it succeeds and some answer is an A
  record it returns the address of the first of them and no error.
\<close>

theorem lookupIP_outcomes:
  "(exchange (Fqdn host) (server @ '':53'') = Inl err
      \<longrightarrow> lookupIP exchange host server = Inl err)
   \<and> (exchange (Fqdn host) (server @ '':53'') = Inr answer \<and> addresses answer = []
      \<longrightarrow> lookupIP exchange host server = Inr MISSING)
   \<and> (exchange (Fqdn host) (server @ '':53'') = Inr answer \<and> addresses answer = a # others
      \<longrightarrow> lookupIP exchange host server = Inr a)"
  by (simp add: lookupIP_def first_A_addresses)

theorem lookupIP_outcomes_witness:
  "lookupIP (\<lambda>q s. Inl (ErrorString ''i/o timeout'')) ''api.internal'' ''10.0.0.53''
     = Inl (ErrorString ''i/o timeout'')
   \<and> lookupIP (\<lambda>q s. Inr [OtherRR]) ''api.internal'' ''10.0.0.53'' = Inr MISSING
   \<and> lookupIP (\<lambda>q s. Inr [OtherRR, A ''203.0.113.5'', A ''203.0.113.6''])
        ''api.internal'' ''10.0.0.53'' = Inr ''203.0.113.5''"
  using lookupIP_outcomes [of "\<lambda>q s. Inl (ErrorString ''i/o timeout'')" "''api.internal''"
      "''10.0.0.53''" "ErrorString ''i/o timeout''"]
    lookupIP_outcomes [of "\<lambda>q s. Inr [OtherRR]" "''api.internal''" "''10.0.0.53''" _ "[OtherRR]"]
    lookupIP_outcomes [of "\<lambda>q s. Inr [OtherRR, A ''203.0.113.5'', A ''203.0.113.6'']"
      "''api.internal''" "''10.0.0.53''" _ "[OtherRR, A ''203.0.113.5'', A ''203.0.113.6'']"
      "''203.0.113.5''" "[''203.0.113.6'']"]
  by simp

lemma resolve_host_cases:
  "ip_address (resolve_host exchange host) =
     (case exchange (Fqdn (hostname host)) (dns_server host @ '':53'') of
        Inl err \<Rightarrow> ERROR
      | Inr answer \<Rightarrow> (case addresses answer of [] \<Rightarrow> MISSING | a # others \<Rightarrow> a))"
  by (simp add: resolve_host_def lookupIP_def first_A_addresses split: sum.splits)

subsection \<open>loadHostConfig\<close>

lemmas eval_fields = Fields_def ascii_space_def space2_def space3_def HasPrefix_def

lemma load_lines_skip:
  "skipped l \<Longrightarrow> load_lines n hosts (l # rest) = load_lines (n + 1) hosts rest"
  by (auto simp: skipped_def)

lemma load_lines_entry:
  "\<not> skipped l \<Longrightarrow> length (Fields l) = 2 \<Longrightarrow>
   load_lines n hosts (l # rest) = load_lines (n + 1) (hosts @ [entry l]) rest"
  by (auto simp: skipped_def entry_def Let_def)

lemma load_lines_stop:
  "\<not> well_formed l \<Longrightarrow>
   load_lines n hosts (l # rest) =
     (hosts, Some (ErrorString (''Unexpected input on line '' @ decimal (n + 1) @ '': '' @ l)))"
  by (auto simp: skipped_def well_formed_def Let_def)

lemma load_lines_good:
  "\<forall>l \<in> set lines. well_formed l \<Longrightarrow>
   load_lines n hosts lines = (hosts @ map entry (filter (\<lambda>l. \<not> skipped l) lines), None)"
proof (induction lines arbitrary: n hosts)
  case Nil
  then show ?case by simp
next
  case (Cons l lines)
  show ?case
  proof (cases "skipped l")
    case True
    with Cons show ?thesis by (simp add: load_lines_skip del: load_lines.simps)
  next
    case False
    with Cons.prems have "length (Fields l) = 2" by (simp add: well_formed_def)
    with False Cons show ?thesis by (simp add: load_lines_entry del: load_lines.simps)
  qed
qed

lemma load_lines_bad:
  "\<forall>l \<in> set good. well_formed l \<Longrightarrow> \<not> well_formed bad \<Longrightarrow>
   load_lines n hosts (good @ bad # rest) =
     (hosts @ map entry (filter (\<lambda>l. \<not> skipped l) good),
      Some (ErrorString (''Unexpected input on line '' @ decimal (n + length good + 1)
                           @ '': '' @ bad)))"
proof (induction good arbitrary: n hosts)
  case Nil
  then show ?case by (simp add: load_lines_stop del: load_lines.simps)
next
  case (Cons l good)
  show ?case
  proof (cases "skipped l")
    case True
    with Cons show ?thesis by (simp add: load_lines_skip del: load_lines.simps)
  next
    case False
    with Cons.prems have "length (Fields l) = 2" by (simp add: well_formed_def)
    with False Cons show ?thesis by (simp add: load_lines_entry del: load_lines.simps)
  qed
qed

lemma load_lines_NIL:
  "\<forall>h \<in> set hosts. ip_address h = NIL \<Longrightarrow>
   \<forall>h \<in> set (fst (load_lines n hosts lines)). ip_address h = NIL"
  by (induction n hosts lines rule: load_lines.induct) (simp_all add: Let_def)

lemma fields_from_nonempty: "cur \<noteq> [] \<Longrightarrow> fields_from cur s \<noteq> []"
  by (induction cur s rule: fields_from.induct) simp_all

lemma blank_starts_with_space: "blank (c # cs) \<Longrightarrow> space_len (c # cs) \<noteq> 0"
  using fields_from_nonempty [of "[c]" cs]
  by (cases "space_len (c # cs) = 0") (simp_all add: blank_def Fields_def)

lemma space_len_not_hash: "space_len (c # cs) \<noteq> 0 \<Longrightarrow> c \<noteq> CHR ''#''"
  by (cases "c # cs" rule: space_len.cases)
     (auto simp: ascii_space_def space2_def space3_def split: if_splits)

lemma blank_line_not_skipped:
  assumes "blank line" "line \<noteq> []"
  shows "\<not> skipped line" and "\<not> well_formed line"
proof -
  from assms(2) obtain c cs where l: "line = c # cs" by (cases line) auto
  with assms(1) have "c \<noteq> CHR ''#''"
    using blank_starts_with_space space_len_not_hash by blast
  with l show "\<not> skipped line" by (simp add: skipped_def HasPrefix_def)
  with assms(1) show "\<not> well_formed line" by (simp add: well_formed_def blank_def)
qed

text \<open>
  Claim C9 says that blank lines are passed over. The source passes over the lines of
  length 0 only: a line of white space has no field, and the load stops there with the
  error for its line number.
\<close>

theorem blank_line_stops_load:
  "main_load (Some [''api.internal 10.0.0.53'', ''  '', ''db.internal 10.0.0.54''])
     = Inl (ErrorString ''Unexpected input on line 2:   '')"
  by (simp add: main_load_def loadHostConfig_def eval_fields decimal.simps digit_def)

text \<open>
  Claim C9, amended. \<^verbatim>\<open>loadHostConfig\<close> passes over the lines of length 0 and the lines
  that start with \<^verbatim>\<open>#\<close>. When every other line has exactly two fields, it returns one
  entry for each of them, in order, made of the two fields, and no error. When some other
  line has not, it returns the error that names the number of the first such line, counted
  from 1, and the line itself, and \<^verbatim>\<open>main\<close> stops with that error. A line that is not
  empty and has no field, a line of white space, is such a line: it is not passed over.
  The address of every entry returned is \<^verbatim>\<open>NIL\<close>.
\<close>

theorem loadHostConfig_all_or_nothing:
  "((\<forall>l \<in> set lines. well_formed l) \<longrightarrow>
      loadHostConfig (Some lines) = (map entry (filter (\<lambda>l. \<not> skipped l) lines), None)
      \<and> main_load (Some lines) = Inr (map entry (filter (\<lambda>l. \<not> skipped l) lines)))
   \<and> ((\<forall>l \<in> set good. well_formed l) \<and> \<not> well_formed bad \<longrightarrow>
      snd (loadHostConfig (Some (good @ bad # rest))) =
        Some (ErrorString (''Unexpected input on line '' @ decimal (length good + 1)
                             @ '': '' @ bad))
      \<and> main_load (Some (good @ bad # rest)) =
        Inl (ErrorString (''Unexpected input on line '' @ decimal (length good + 1)
                            @ '': '' @ bad)))
   \<and> (blank line \<and> line \<noteq> [] \<longrightarrow> \<not> skipped line \<and> \<not> well_formed line)
   \<and> (\<forall>h \<in> set (fst (loadHostConfig inp)). ip_address h = NIL)"
proof (intro conjI impI)
  assume "\<forall>l \<in> set lines. well_formed l"
  then show "loadHostConfig (Some lines) = (map entry (filter (\<lambda>l. \<not> skipped l) lines), None)"
    and "main_load (Some lines) = Inr (map entry (filter (\<lambda>l. \<not> skipped l) lines))"
    by (simp_all add: main_load_def loadHostConfig_def load_lines_good)
next
  assume "(\<forall>l \<in> set good. well_formed l) \<and> \<not> well_formed bad"
  then show "snd (loadHostConfig (Some (good @ bad # rest))) =
        Some (ErrorString (''Unexpected input on line '' @ decimal (length good + 1)
                             @ '': '' @ bad))"
    and "main_load (Some (good @ bad # rest)) =
        Inl (ErrorString (''Unexpected input on line '' @ decimal (length good + 1)
                            @ '': '' @ bad))"
    by (simp_all add: main_load_def loadHostConfig_def load_lines_bad)
next
  assume "blank line \<and> line \<noteq> []"
  then show "\<not> skipped line" and "\<not> well_formed line"
    by (simp_all add: blank_line_not_skipped)
next
  show "\<forall>h \<in> set (fst (loadHostConfig inp)). ip_address h = NIL"
    using load_lines_NIL [of "[]" 0] by (cases inp) (simp_all add: loadHostConfig_def)
qed

theorem loadHostConfig_all_or_nothing_witness:
  "loadHostConfig (Some [''# pinned hosts'', [], ''api.internal 10.0.0.53'',
                         ''db.internal'' @ [TAB] @ ''10.0.0.54''])
     = ([\<lparr>hostname = ''api.internal'', dns_server = ''10.0.0.53'', ip_address = ''NIL''\<rparr>,
         \<lparr>hostname = ''db.internal'', dns_server = ''10.0.0.54'', ip_address = ''NIL''\<rparr>], None)
   \<and> main_load (Some ([''# pinned hosts'', ''api.internal 10.0.0.53''] @ ''api.internal''
                       # [''db.internal 10.0.0.54'']))
     = Inl (ErrorString ''Unexpected input on line 3: api.internal'')
   \<and> main_load (Some ([''api.internal 10.0.0.53''] @ [TAB, CHR '' ''] # []))
     = Inl (ErrorString (''Unexpected input on line 2: '' @ [TAB, CHR '' '']))"
proof -
  note a = loadHostConfig_all_or_nothing
      [of "[''# pinned hosts'', [], ''api.internal 10.0.0.53'',
            ''db.internal'' @ [TAB] @ ''10.0.0.54'']"
          "[''# pinned hosts'', ''api.internal 10.0.0.53'']" "''api.internal''"
          "[''db.internal 10.0.0.54'']" "[TAB, CHR '' '']" "None"]
  note b = loadHostConfig_all_or_nothing
      [of "[]" "[''api.internal 10.0.0.53'']" "[TAB, CHR '' '']" "[]" "[TAB, CHR '' '']" "None"]
  have bl: "blank [TAB, CHR '' ''] \<and> [TAB, CHR '' ''] \<noteq> []"
    by (simp add: blank_def eval_fields)
  with a have nw: "\<not> well_formed [TAB, CHR '' '']" by blast
  have "loadHostConfig (Some [''# pinned hosts'', [], ''api.internal 10.0.0.53'',
                         ''db.internal'' @ [TAB] @ ''10.0.0.54''])
     = ([\<lparr>hostname = ''api.internal'', dns_server = ''10.0.0.53'', ip_address = ''NIL''\<rparr>,
         \<lparr>hostname = ''db.internal'', dns_server = ''10.0.0.54'', ip_address = ''NIL''\<rparr>], None)
   \<and> main_load (Some ([''# pinned hosts'', ''api.internal 10.0.0.53''] @ ''api.internal''
                       # [''db.internal 10.0.0.54'']))
     = Inl (ErrorString ''Unexpected input on line 3: api.internal'')"
    using a
    by (simp add: well_formed_def skipped_def entry_def eval_fields NIL_def decimal.simps digit_def)
  moreover have "main_load (Some ([''api.internal 10.0.0.53''] @ [TAB, CHR '' ''] # []))
     = Inl (ErrorString (''Unexpected input on line 2: '' @ [TAB, CHR '' '']))"
    using b nw
    by (simp add: well_formed_def skipped_def eval_fields decimal.simps digit_def)
  ultimately show ?thesis by blast
qed

subsection \<open>The new content\<close>

lemma render_hosts_Cons: "render_hosts m (h # hosts) = render_host m h @ render_hosts m hosts"
  by (simp add: render_hosts_def)

lemma render_hosts_append:
  "render_hosts m (hs @ hs') = render_hosts m hs @ render_hosts m hs'"
  by (simp add: render_hosts_def)

lemma render_host_resolved: "resolved h \<Longrightarrow> render_host m h = [mapping_line h]"
  by (simp add: render_host_def resolved_def mapping_line_def)

lemma render_hosts_resolved: "all_resolved hosts \<Longrightarrow> render_hosts m hosts = map mapping_line hosts"
  by (induction hosts) (simp_all add: render_hosts_def render_host_resolved)

lemma render_host_shape:
  "l \<in> set (render_host m h) \<Longrightarrow> TAB \<in> set l \<or> take 2 l = ''# ''"
  by (auto simp: render_host_def split: option.splits if_splits)

lemma sentinel_shape:
  "TAB \<notin> set DNSPIN_BEGIN" "take 2 DNSPIN_BEGIN \<noteq> ''# ''"
  "TAB \<notin> set DNSPIN_END" "take 2 DNSPIN_END \<noteq> ''# ''"
  by (simp_all add: DNSPIN_BEGIN_def DNSPIN_END_def)

lemma render_host_no_sentinel:
  "DNSPIN_BEGIN \<notin> set (render_host m h)" "DNSPIN_END \<notin> set (render_host m h)"
  using render_host_shape [of DNSPIN_BEGIN m h] render_host_shape [of DNSPIN_END m h]
    sentinel_shape
  by blast+

lemma render_hosts_no_sentinel:
  "DNSPIN_BEGIN \<notin> set (render_hosts m hosts)" "DNSPIN_END \<notin> set (render_hosts m hosts)"
  by (simp_all add: render_hosts_def render_host_no_sentinel)

lemma sentinels_differ: "DNSPIN_BEGIN \<noteq> DNSPIN_END"
  by (simp add: DNSPIN_BEGIN_def DNSPIN_END_def)

subsection \<open>The scanning loop and the regions\<close>

lemma scan_init_sentinel_free:
  "DNSPIN_BEGIN \<notin> set (pre_lines (scan_lines scan_init ls))"
  "DNSPIN_END \<notin> set (pre_lines (scan_lines scan_init ls))"
  "DNSPIN_BEGIN \<notin> set (pin_lines (scan_lines scan_init ls))"
  "DNSPIN_END \<notin> set (pin_lines (scan_lines scan_init ls))"
  using sentinel_free_scan_lines [of DNSPIN_BEGIN scan_init ls]
    sentinel_free_scan_lines [of DNSPIN_END scan_init ls]
  by (simp_all add: scan_init_def)

lemma pin_lines_region:
  "location st = PRE_PIN \<or> location st = IN_PIN \<or> location st = POST_PIN \<Longrightarrow>
   lines_after_end (location st) ls = [] \<Longrightarrow>
   pin_lines (scan_lines st ls) =
     pin_lines st @ filter (\<lambda>l. \<not> HasPrefix l ''#'') (lines_in_region (location st) ls)"
proof (induction ls arbitrary: st)
  case Nil
  then show ?case by simp
next
  case (Cons l ls)
  then show ?case
    by (auto simp: scan_line_def PRE_PIN_def IN_PIN_def POST_PIN_def split: if_splits)
qed

lemma read_mappings_region:
  "lines_after_end PRE_PIN lines = [] \<Longrightarrow> read_mappings lines = region_mappings lines"
  using pin_lines_region [of scan_init lines]
  by (simp add: read_mappings_def region_mappings_def scan_init_def)


subsection \<open>writeHostsFile\<close>

lemma out_name_not_hosts: "out_name e \<noteq> HOSTS_FILE"
  by (simp add: out_name_def temp_name_def HOSTS_FILE_def)

lemma writeHostsFile_open_fails:
  "fails e OpenStep \<or> fs HOSTS_FILE = None \<Longrightarrow>
   writeHostsFile e hosts fs = (Inl (IOError OpenStep), fs)"
  by (auto simp: writeHostsFile_def)

lemma writeHostsFile_unfold:
  "fs HOSTS_FILE = Some inp \<Longrightarrow> \<not> fails e OpenStep \<Longrightarrow>
   writeHostsFile e hosts fs =
     (if \<not> needs_rewrite (read_mappings (content inp)) hosts then (Inr False, fs)
      else if fails e TempFileStep then (Inl (IOError TempFileStep), fs)
      else deferred_remove (out_name e)
             (write_and_rename e (out_name e) (merged_content (content inp) hosts)
                (fs(out_name e \<mapsto> \<lparr>mode = MODE_0600, content = []\<rparr>))))"
  by (simp add: writeHostsFile_def read_mappings_def merged_content_def Let_def)

lemma write_and_rename_fst:
  "fst (write_and_rename e out lines fs) = Inr b \<longleftrightarrow>
     b \<and> \<not> fails e ChmodStep \<and> \<not> fails e FlushStep \<and> \<not> fails e RenameStep"
  by (auto simp: write_and_rename_def)

lemma write_and_rename_ok:
  "\<not> fails e ChmodStep \<Longrightarrow> \<not> fails e FlushStep \<Longrightarrow> \<not> fails e RenameStep \<Longrightarrow>
   write_and_rename e out lines fs =
     (Inr True, (fs(out := None))(HOSTS_FILE \<mapsto> \<lparr>mode = MODE_0644, content = lines\<rparr>))"
  by (simp add: write_and_rename_def)

lemma write_and_rename_fails:
  "fails e ChmodStep \<or> fails e FlushStep \<or> fails e RenameStep \<Longrightarrow> out \<noteq> HOSTS_FILE \<Longrightarrow>
   (\<exists>err. fst (write_and_rename e out lines fs) = Inl err)
   \<and> snd (write_and_rename e out lines fs) HOSTS_FILE = fs HOSTS_FILE"
  by (auto simp: write_and_rename_def)

lemma writeHostsFile_wrote:
  assumes "fst (writeHostsFile e hosts fs) = Inr True"
  shows "\<exists>inp. fs HOSTS_FILE = Some inp
           \<and> needs_rewrite (read_mappings (content inp)) hosts
           \<and> snd (writeHostsFile e hosts fs) HOSTS_FILE =
               Some \<lparr>mode = MODE_0644, content = merged_content (content inp) hosts\<rparr>"
proof (cases "fails e OpenStep \<or> fs HOSTS_FILE = None")
  case True
  with assms show ?thesis by (simp add: writeHostsFile_open_fails)
next
  case False
  then obtain inp where inp: "fs HOSTS_FILE = Some inp" and op: "\<not> fails e OpenStep"
    by auto
  note u = writeHostsFile_unfold [of fs inp e hosts, OF inp op]
  from assms u have nr: "needs_rewrite (read_mappings (content inp)) hosts"
    and tf: "\<not> fails e TempFileStep"
    by (auto split: if_splits)
  from assms u nr tf have
    "\<not> fails e ChmodStep \<and> \<not> fails e FlushStep \<and> \<not> fails e RenameStep"
    by (simp add: deferred_remove_def write_and_rename_fst)
  with u nr tf inp show ?thesis
    by (simp add: deferred_remove_def write_and_rename_ok out_name_not_hosts)
qed

lemma merged_content_eq:
  "merged_content lines hosts =
     pre_lines (scan_lines scan_init lines) @ DNSPIN_BEGIN
       # render_hosts (read_mappings lines) hosts @ [DNSPIN_END]"
  by (simp add: merged_content_def new_content_def post_lines_scan_init)

lemma takeWhile_stop: "x \<notin> set xs \<Longrightarrow> takeWhile (\<lambda>l. l \<noteq> x) (xs @ x # ys) = xs"
  by (induction xs) auto

lemma merged_content_sentinels:
  "count_list (merged_content lines hosts) DNSPIN_BEGIN = 1"
  "count_list (merged_content lines hosts) DNSPIN_END = 1"
  "DNSPIN_END \<notin> set (takeWhile (\<lambda>l. l \<noteq> DNSPIN_BEGIN) (merged_content lines hosts))"
proof -
  let ?pre = "pre_lines (scan_lines scan_init lines)"
  let ?mid = "render_hosts (read_mappings lines) hosts"
  have pre: "DNSPIN_BEGIN \<notin> set ?pre" "DNSPIN_END \<notin> set ?pre"
    by (rule scan_init_sentinel_free)+
  have mid: "DNSPIN_BEGIN \<notin> set ?mid" "DNSPIN_END \<notin> set ?mid"
    by (rule render_hosts_no_sentinel)+
  show "count_list (merged_content lines hosts) DNSPIN_BEGIN = 1"
    using pre mid sentinels_differ by (simp add: merged_content_eq)
  show "count_list (merged_content lines hosts) DNSPIN_END = 1"
    using pre mid sentinels_differ by (simp add: merged_content_eq)
  have "takeWhile (\<lambda>l. l \<noteq> DNSPIN_BEGIN) (merged_content lines hosts) = ?pre"
    using pre by (simp add: merged_content_eq takeWhile_stop)
  with pre show "DNSPIN_END \<notin> set (takeWhile (\<lambda>l. l \<noteq> DNSPIN_BEGIN) (merged_content lines hosts))"
    by simp
qed

lemmas eval_write = writeHostsFile_def out_name_def temp_name_def deferred_remove_def
  write_and_rename_def needs_rewrite_def new_content_def render_hosts_def render_host_def
  scan_init_def scan_line_def DNSPIN_BEGIN_def DNSPIN_END_def PRE_PIN_def IN_PIN_def
  POST_PIN_def ERROR_def MISSING_def HOSTS_FILE_def no_faults_def only_hosts_file_def Let_def

subsection \<open>The lines outside the managed region\<close>

lemma pre_lines_kept:
  "pre_lines (scan_lines scan_init lines) =
     takeWhile (\<lambda>l. l \<noteq> DNSPIN_BEGIN \<and> l \<noteq> DNSPIN_END) lines"
  using pre_lines_scan_lines [of scan_init lines] by (simp add: scan_init_def)

lemma merged_content_ends: "last (merged_content lines hosts) = DNSPIN_END"
  by (simp add: merged_content_eq)

text \<open>
  Claim C1 asks that the lines before the begin sentinel and the lines after the end
  sentinel are in the rewritten file as they were. The lines before the first sentinel are
  (\<open>pre_lines_kept\<close>), the lines after the end sentinel are not: the file written ends
  with the end sentinel (\<open>merged_content_ends\<close>). Here the hosts file has one line after the
  end sentinel, the host has a new address, and the file written has lost the line.
\<close>

theorem lines_after_end_lost:
  "writeHostsFile no_faults
     [\<lparr>hostname = ''api.internal'', dns_server = ''10.0.0.53'', ip_address = ''203.0.113.5''\<rparr>]
     (only_hosts_file [''127.0.0.1 localhost'', DNSPIN_BEGIN,
        ''10.0.0.1'' @ [TAB] @ ''api.internal'', DNSPIN_END, ''192.168.0.7 printer''])
   = (Inr True,
      only_hosts_file [''127.0.0.1 localhost'', DNSPIN_BEGIN,
        ''203.0.113.5'' @ [TAB] @ ''api.internal'', DNSPIN_END])"
  by (rule prod_eqI, simp add: eval_write eval_fields, rule ext)
     (simp add: eval_write eval_fields)

subsection \<open>The regions\<close>

text \<open>
  Claim C2 says that the location goes from \<^verbatim>\<open>PRE_PIN\<close> to \<^verbatim>\<open>IN_PIN\<close> on the begin
  sentinel and from there to \<^verbatim>\<open>POST_PIN\<close> on the end sentinel, where it stays, so that one
  region at most is read. In the source a begin sentinel sets the location to \<^verbatim>\<open>IN_PIN\<close>
  whatever it was: a file with two regions has the lines of both read as mappings.
\<close>

theorem second_region_read:
  "location (scan_line (scan_init\<lparr>location := POST_PIN\<rparr>) DNSPIN_BEGIN) = IN_PIN
   \<and> IN_PIN \<noteq> POST_PIN
   \<and> read_mappings [DNSPIN_BEGIN, ''10.0.0.1'' @ [TAB] @ ''a.internal'', DNSPIN_END,
                     DNSPIN_BEGIN, ''10.0.0.2'' @ [TAB] @ ''b.internal'', DNSPIN_END]
       = [(''a.internal'', ''10.0.0.1''), (''b.internal'', ''10.0.0.2'')]"
  by (simp add: read_mappings_def eval_write eval_fields)

text \<open>
  Claim C2, amended. The location starts as \<^verbatim>\<open>PRE_PIN\<close>; a line equal to the begin sentinel
  sets it to \<^verbatim>\<open>IN_PIN\<close> and a line equal to the end sentinel sets it to \<^verbatim>\<open>POST_PIN\<close>,
  whatever it was, and no other line changes it. A file without sentinel lines has all
  its lines collected as lines before the region and none as lines of the region, no
  mapping is read from it, and when no call fails the file is left alone when there is no
  host and is otherwise rewritten as its lines followed by the new region.
\<close>

theorem region_state_machine:
  "location scan_init = PRE_PIN
   \<and> location (scan_line st DNSPIN_BEGIN) = IN_PIN
   \<and> location (scan_line st DNSPIN_END) = POST_PIN
   \<and> (line \<noteq> DNSPIN_BEGIN \<and> line \<noteq> DNSPIN_END \<longrightarrow> location (scan_line st line) = location st)
   \<and> (DNSPIN_BEGIN \<notin> set lines \<and> DNSPIN_END \<notin> set lines \<longrightarrow>
        scan_lines scan_init lines =
          \<lparr>location = PRE_PIN, pre_lines = lines, pin_lines = [], post_lines = []\<rparr>
        \<and> read_mappings lines = []
        \<and> (fs HOSTS_FILE = Some inp \<and> content inp = lines \<and> (\<forall>s. \<not> fails e s) \<longrightarrow>
             (hosts = [] \<longrightarrow> writeHostsFile e hosts fs = (Inr False, fs))
           \<and> (hosts \<noteq> [] \<longrightarrow>
                fst (writeHostsFile e hosts fs) = Inr True
              \<and> snd (writeHostsFile e hosts fs) HOSTS_FILE =
                  Some \<lparr>mode = MODE_0644,
                        content = lines @ [DNSPIN_BEGIN] @ render_hosts [] hosts @ [DNSPIN_END]\<rparr>)))"
proof (intro conjI impI)
  show "location scan_init = PRE_PIN" by (simp add: scan_init_def)
  show "location (scan_line st DNSPIN_BEGIN) = IN_PIN" by (simp add: scan_line_def)
  show "location (scan_line st DNSPIN_END) = POST_PIN"
    using sentinels_differ by (simp add: scan_line_def)
next
  assume "line \<noteq> DNSPIN_BEGIN \<and> line \<noteq> DNSPIN_END"
  then show "location (scan_line st line) = location st" by (simp add: scan_line_def)
next
  assume free: "DNSPIN_BEGIN \<notin> set lines \<and> DNSPIN_END \<notin> set lines"
  then show sc: "scan_lines scan_init lines =
          \<lparr>location = PRE_PIN, pre_lines = lines, pin_lines = [], post_lines = []\<rparr>"
    using scan_lines_pre [of scan_init lines] by (simp add: scan_init_def)
  then show rm: "read_mappings lines = []" by (simp add: read_mappings_def)
  assume io: "fs HOSTS_FILE = Some inp \<and> content inp = lines \<and> (\<forall>s. \<not> fails e s)"
  then have u: "writeHostsFile e hosts fs =
     (if \<not> needs_rewrite [] hosts then (Inr False, fs)
      else deferred_remove (out_name e)
             (write_and_rename e (out_name e) (merged_content lines hosts)
                (fs(out_name e \<mapsto> \<lparr>mode = MODE_0600, content = []\<rparr>))))"
    using writeHostsFile_unfold [of fs inp e hosts] rm by simp
  have nr: "needs_rewrite [] hosts \<longleftrightarrow> hosts \<noteq> []"
    by (auto simp: needs_rewrite_iff)
  have mc: "merged_content lines hosts = lines @ [DNSPIN_BEGIN] @ render_hosts [] hosts @ [DNSPIN_END]"
    using sc rm by (simp add: merged_content_eq)
  {
    assume "hosts = []"
    with u nr show "writeHostsFile e hosts fs = (Inr False, fs)" by simp
  }
  {
    assume "hosts \<noteq> []"
    with u nr io mc show "fst (writeHostsFile e hosts fs) = Inr True"
      and "snd (writeHostsFile e hosts fs) HOSTS_FILE =
                  Some \<lparr>mode = MODE_0644,
                        content = lines @ [DNSPIN_BEGIN] @ render_hosts [] hosts @ [DNSPIN_END]\<rparr>"
      by (simp_all add: deferred_remove_def write_and_rename_ok out_name_not_hosts)
  }
qed

theorem region_state_machine_witness:
  "location (scan_line (scan_init\<lparr>location := POST_PIN\<rparr>) ''127.0.0.1 localhost'') = POST_PIN
   \<and> scan_lines scan_init [''127.0.0.1 localhost'', ''# local names'']
       = \<lparr>location = PRE_PIN, pre_lines = [''127.0.0.1 localhost'', ''# local names''],
          pin_lines = [], post_lines = []\<rparr>
   \<and> snd (writeHostsFile no_faults
        [\<lparr>hostname = ''api.internal'', dns_server = ''10.0.0.53'', ip_address = ''203.0.113.5''\<rparr>]
        (only_hosts_file [''127.0.0.1 localhost'', ''# local names''])) HOSTS_FILE
       = Some \<lparr>mode = MODE_0644,
               content = [''127.0.0.1 localhost'', ''# local names'', DNSPIN_BEGIN,
                          ''203.0.113.5'' @ [TAB] @ ''api.internal'', DNSPIN_END]\<rparr>"
  using region_state_machine
     [of "scan_init\<lparr>location := POST_PIN\<rparr>" "''127.0.0.1 localhost''"
         "[''127.0.0.1 localhost'', ''# local names'']"
         "only_hosts_file [''127.0.0.1 localhost'', ''# local names'']"
         "\<lparr>mode = MODE_0644, content = [''127.0.0.1 localhost'', ''# local names'']\<rparr>"
         no_faults
         "[\<lparr>hostname = ''api.internal'', dns_server = ''10.0.0.53'', ip_address = ''203.0.113.5''\<rparr>]"]
  by (simp add: only_hosts_file_def no_faults_def DNSPIN_BEGIN_def DNSPIN_END_def scan_init_def
        render_hosts_def render_host_def ERROR_def MISSING_def)

subsection \<open>The sentinels of the rewritten file\<close>

text \<open>
  Claim C10. Whatever the lines of the hosts file and whatever the hosts, a file that
  \<^verbatim>\<open>writeHostsFile\<close> has written holds the begin sentinel once and the end sentinel once,
  the begin sentinel first. No sentinel line of the file read is among the lines collected
  before, in or after the region.
\<close>

theorem one_sentinel_pair:
  "(fst (writeHostsFile e hosts fs) = Inr True \<longrightarrow>
      (\<exists>c. snd (writeHostsFile e hosts fs) HOSTS_FILE = Some \<lparr>mode = MODE_0644, content = c\<rparr>
         \<and> count_list c DNSPIN_BEGIN = 1 \<and> count_list c DNSPIN_END = 1
         \<and> DNSPIN_END \<notin> set (takeWhile (\<lambda>l. l \<noteq> DNSPIN_BEGIN) c)))
   \<and> DNSPIN_BEGIN \<notin> set (pre_lines (scan_lines scan_init lines))
         \<union> set (pin_lines (scan_lines scan_init lines))
         \<union> set (post_lines (scan_lines scan_init lines))
   \<and> DNSPIN_END \<notin> set (pre_lines (scan_lines scan_init lines))
         \<union> set (pin_lines (scan_lines scan_init lines))
         \<union> set (post_lines (scan_lines scan_init lines))"
proof (intro conjI impI)
  assume "fst (writeHostsFile e hosts fs) = Inr True"
  from writeHostsFile_wrote [OF this] merged_content_sentinels
  show "\<exists>c. snd (writeHostsFile e hosts fs) HOSTS_FILE = Some \<lparr>mode = MODE_0644, content = c\<rparr>
         \<and> count_list c DNSPIN_BEGIN = 1 \<and> count_list c DNSPIN_END = 1
         \<and> DNSPIN_END \<notin> set (takeWhile (\<lambda>l. l \<noteq> DNSPIN_BEGIN) c)"
    by blast
next
  show "DNSPIN_BEGIN \<notin> set (pre_lines (scan_lines scan_init lines))
         \<union> set (pin_lines (scan_lines scan_init lines))
         \<union> set (post_lines (scan_lines scan_init lines))"
    by (simp add: scan_init_sentinel_free post_lines_scan_init)
  show "DNSPIN_END \<notin> set (pre_lines (scan_lines scan_init lines))
         \<union> set (pin_lines (scan_lines scan_init lines))
         \<union> set (post_lines (scan_lines scan_init lines))"
    by (simp add: scan_init_sentinel_free post_lines_scan_init)
qed

theorem one_sentinel_pair_witness:
  "fst (writeHostsFile no_faults
     [\<lparr>hostname = ''api.internal'', dns_server = ''10.0.0.53'', ip_address = ''203.0.113.5''\<rparr>]
     (only_hosts_file [''127.0.0.1 localhost'', DNSPIN_END, DNSPIN_BEGIN, DNSPIN_BEGIN,
        ''10.0.0.1'' @ [TAB] @ ''old.internal'', DNSPIN_END])) = Inr True
   \<and> (\<exists>c. snd (writeHostsFile no_faults
     [\<lparr>hostname = ''api.internal'', dns_server = ''10.0.0.53'', ip_address = ''203.0.113.5''\<rparr>]
     (only_hosts_file [''127.0.0.1 localhost'', DNSPIN_END, DNSPIN_BEGIN, DNSPIN_BEGIN,
        ''10.0.0.1'' @ [TAB] @ ''old.internal'', DNSPIN_END])) HOSTS_FILE
         = Some \<lparr>mode = MODE_0644, content = c\<rparr>
       \<and> count_list c DNSPIN_BEGIN = 1 \<and> count_list c DNSPIN_END = 1)"
proof -
  have w: "fst (writeHostsFile no_faults
     [\<lparr>hostname = ''api.internal'', dns_server = ''10.0.0.53'', ip_address = ''203.0.113.5''\<rparr>]
     (only_hosts_file [''127.0.0.1 localhost'', DNSPIN_END, DNSPIN_BEGIN, DNSPIN_BEGIN,
        ''10.0.0.1'' @ [TAB] @ ''old.internal'', DNSPIN_END])) = Inr True"
    by (simp add: eval_write eval_fields)
  with one_sentinel_pair [of no_faults
     "[\<lparr>hostname = ''api.internal'', dns_server = ''10.0.0.53'', ip_address = ''203.0.113.5''\<rparr>]"
     "only_hosts_file [''127.0.0.1 localhost'', DNSPIN_END, DNSPIN_BEGIN, DNSPIN_BEGIN,
        ''10.0.0.1'' @ [TAB] @ ''old.internal'', DNSPIN_END]" "[]"]
  show ?thesis by blast
qed

subsection \<open>Reading a region back\<close>

lemma read_mappings_one_region:
  assumes "DNSPIN_BEGIN \<notin> set pre" "DNSPIN_END \<notin> set pre"
    and "DNSPIN_BEGIN \<notin> set region" "DNSPIN_END \<notin> set region"
  shows "read_mappings (pre @ [DNSPIN_BEGIN] @ region @ [DNSPIN_END]) =
           parse_mappings [] (filter (\<lambda>l. \<not> HasPrefix l ''#'') region)"
proof -
  have 1: "scan_lines scan_init pre = scan_init\<lparr>pre_lines := pre\<rparr>"
    using scan_lines_pre [of scan_init pre] assms(1,2) by (simp add: scan_init_def)
  have 2: "scan_line (scan_init\<lparr>pre_lines := pre\<rparr>) DNSPIN_BEGIN =
             scan_init\<lparr>pre_lines := pre, location := IN_PIN\<rparr>"
    by (simp add: scan_line_def)
  have 3: "scan_lines (scan_init\<lparr>pre_lines := pre, location := IN_PIN\<rparr>) region =
             scan_init\<lparr>pre_lines := pre, location := IN_PIN,
               pin_lines := filter (\<lambda>l. \<not> HasPrefix l ''#'') region\<rparr>"
    using scan_lines_in [of "scan_init\<lparr>pre_lines := pre, location := IN_PIN\<rparr>" region] assms(3,4)
    by (simp add: scan_init_def)
  have "pin_lines (scan_lines scan_init (pre @ [DNSPIN_BEGIN] @ region @ [DNSPIN_END])) =
          filter (\<lambda>l. \<not> HasPrefix l ''#'') region"
    using sentinels_differ by (simp add: scan_lines_append 1 2 3) (simp add: scan_line_def)
  then show ?thesis by (simp add: read_mappings_def)
qed

lemma mapping_line_no_comment: "resolved h \<Longrightarrow> \<not> HasPrefix (mapping_line h) ''#''"
  by (cases "ip_address h") (auto simp: resolved_def token_def HasPrefix_def mapping_line_def)

lemma filter_mapping_lines:
  "all_resolved hosts \<Longrightarrow>
   filter (\<lambda>l. \<not> HasPrefix l ''#'') (map mapping_line hosts) = map mapping_line hosts"
  by (induction hosts) (simp_all add: mapping_line_no_comment)

lemma read_mappings_rendered:
  assumes "all_resolved hosts" "DNSPIN_BEGIN \<notin> set pre" "DNSPIN_END \<notin> set pre"
  shows "read_mappings (pre @ [DNSPIN_BEGIN] @ render_hosts m hosts @ [DNSPIN_END]) =
           fold (\<lambda>h. AList.update (hostname h) (ip_address h)) hosts []"
  using assms read_mappings_one_region [OF assms(2,3) render_hosts_no_sentinel, of m hosts]
  by (simp add: render_hosts_resolved filter_mapping_lines parse_mappings_lines)

text \<open>
  Claim C7. For hosts that all have an address, with names and addresses that are fields
  (non-empty, without white space) and addresses that do not start with \<^verbatim>\<open>#\<close>: the
  mappings read back from the rendered region between its two sentinels are those of the
  hosts, name for name (where a name occurs twice, its last address), and when the names
  are distinct they are the hosts' pairs of name and address in order.
\<close>

theorem render_then_parse:
  "all_resolved hosts \<Longrightarrow>
   map_of (read_mappings ([DNSPIN_BEGIN] @ render_hosts m hosts @ [DNSPIN_END])) =
     map_of (rev (map (\<lambda>h. (hostname h, ip_address h)) hosts))
   \<and> (distinct (map hostname hosts) \<longrightarrow>
        read_mappings ([DNSPIN_BEGIN] @ render_hosts m hosts @ [DNSPIN_END]) =
          map (\<lambda>h. (hostname h, ip_address h)) hosts)"
proof (intro conjI impI)
  assume r: "all_resolved hosts"
  have rm: "read_mappings ([DNSPIN_BEGIN] @ render_hosts m hosts @ [DNSPIN_END]) =
           fold (\<lambda>h. AList.update (hostname h) (ip_address h)) hosts []"
    using read_mappings_rendered [OF r, of "[]" m] by simp
  show "map_of (read_mappings ([DNSPIN_BEGIN] @ render_hosts m hosts @ [DNSPIN_END])) =
     map_of (rev (map (\<lambda>h. (hostname h, ip_address h)) hosts))"
    by (simp only: rm map_of_fold_update) simp
  assume "distinct (map hostname hosts)"
  then show "read_mappings ([DNSPIN_BEGIN] @ render_hosts m hosts @ [DNSPIN_END]) =
          map (\<lambda>h. (hostname h, ip_address h)) hosts"
    using fold_update_distinct [of hostname hosts "[]" ip_address] by (simp only: rm) simp
qed

lemmas eval_resolved = resolved_def token_def HasPrefix_def ascii_space_def space2_def space3_def
  ERROR_def MISSING_def

theorem render_then_parse_witness:
  "read_mappings ([DNSPIN_BEGIN] @ render_hosts []
      [\<lparr>hostname = ''api.internal'', dns_server = ''10.0.0.53'', ip_address = ''203.0.113.5''\<rparr>,
       \<lparr>hostname = ''db.internal'', dns_server = ''10.0.0.53'', ip_address = ''203.0.113.9''\<rparr>]
      @ [DNSPIN_END])
   = [(''api.internal'', ''203.0.113.5''), (''db.internal'', ''203.0.113.9'')]"
proof -
  have "all_resolved
      [\<lparr>hostname = ''api.internal'', dns_server = ''10.0.0.53'', ip_address = ''203.0.113.5''\<rparr>,
       \<lparr>hostname = ''db.internal'', dns_server = ''10.0.0.53'', ip_address = ''203.0.113.9''\<rparr>]"
    by (simp add: eval_resolved)
  from render_then_parse [OF this, of "[]"] show ?thesis by simp
qed


subsection \<open>The decision to rewrite\<close>







lemmas eval_region = region_mappings_def render_hosts_def render_host_def DNSPIN_BEGIN_def
  DNSPIN_END_def PRE_PIN_def IN_PIN_def POST_PIN_def only_hosts_file_def no_faults_def


subsection \<open>The lines of a host\<close>

lemma render_host_failed:
  "ip_address h = ERROR \<Longrightarrow>
   render_host m h =
     (case map_of m (hostname h) of
        Some ip \<Rightarrow> [''# '' @ hostname h @ '': cached value, error during lookup to ''
                      @ dns_server h,
                    ip @ [TAB] @ hostname h]
      | None \<Rightarrow> [''# '' @ hostname h @ '': error during lookup to '' @ dns_server h])"
  by (simp add: render_host_def)

lemma render_host_failed_region:
  assumes "lines_after_end PRE_PIN lines = []" "ip_address h = ERROR"
  shows "merged_content lines (hs @ h # hs') =
           pre_lines (scan_lines scan_init lines) @ [DNSPIN_BEGIN]
           @ render_hosts (region_mappings lines) hs
           @ (case map_of (region_mappings lines) (hostname h) of
                Some ip \<Rightarrow> [''# '' @ hostname h @ '': cached value, error during lookup to ''
                              @ dns_server h,
                            ip @ [TAB] @ hostname h]
              | None \<Rightarrow> [''# '' @ hostname h @ '': error during lookup to '' @ dns_server h])
           @ render_hosts (region_mappings lines) hs' @ [DNSPIN_END]"
  using assms
  by (simp add: merged_content_eq read_mappings_region render_hosts_append render_hosts_Cons
        render_host_failed)

text \<open>
  Claim C5 asks that a host whose lookup failed keeps the address that the managed region
  of the hosts file holds for it, under a comment. The source does so with the mappings it
  has read (\<open>render_host_failed\<close>), and these are the mappings of the region when no line
  follows the end sentinel (\<open>render_host_failed_region\<close>). Here a line follows it: the
  region holds an address for the host, and the file written has the comment for a failed
  lookup without a cached address, and no line for the host.
\<close>

theorem cached_address_lost:
  "map_of (region_mappings [''127.0.0.1 localhost'', DNSPIN_BEGIN,
        ''10.0.0.1'' @ [TAB] @ ''api.internal'', DNSPIN_END, ''192.168.0.7 printer''])
     ''api.internal'' = Some ''10.0.0.1''
   \<and> writeHostsFile no_faults
     [\<lparr>hostname = ''api.internal'', dns_server = ''10.0.0.53'', ip_address = ERROR\<rparr>]
     (only_hosts_file [''127.0.0.1 localhost'', DNSPIN_BEGIN,
        ''10.0.0.1'' @ [TAB] @ ''api.internal'', DNSPIN_END, ''192.168.0.7 printer''])
   = (Inr True,
      only_hosts_file [''127.0.0.1 localhost'', DNSPIN_BEGIN,
        ''# api.internal: error during lookup to 10.0.0.53'', DNSPIN_END])"
proof -
  have "map_of (region_mappings [''127.0.0.1 localhost'', DNSPIN_BEGIN,
        ''10.0.0.1'' @ [TAB] @ ''api.internal'', DNSPIN_END, ''192.168.0.7 printer''])
     ''api.internal'' = Some ''10.0.0.1''"
    by (simp add: eval_region eval_fields)
  moreover have "writeHostsFile no_faults
     [\<lparr>hostname = ''api.internal'', dns_server = ''10.0.0.53'', ip_address = ERROR\<rparr>]
     (only_hosts_file [''127.0.0.1 localhost'', DNSPIN_BEGIN,
        ''10.0.0.1'' @ [TAB] @ ''api.internal'', DNSPIN_END, ''192.168.0.7 printer''])
   = (Inr True,
      only_hosts_file [''127.0.0.1 localhost'', DNSPIN_BEGIN,
        ''# api.internal: error during lookup to 10.0.0.53'', DNSPIN_END])"
    by (rule prod_eqI, simp add: eval_write eval_fields, rule ext)
       (simp add: eval_write eval_fields)
  ultimately show ?thesis by simp
qed

lemma parse_mappings_keys:
  "fst ` set (parse_mappings m ls) \<subseteq>
     fst ` set m \<union> {Fields l ! 1 | l. l \<in> set ls \<and> length (Fields l) = 2}"
proof (induction ls arbitrary: m)
  case Nil
  then show ?case by simp
next
  case (Cons l ls)
  show ?case
  proof (cases "length (Fields l) = 2")
    case True
    have "fst ` set (parse_mappings (AList.update (Fields l ! 1) (Fields l ! 0) m) ls) \<subseteq>
            fst ` set (AList.update (Fields l ! 1) (Fields l ! 0) m)
            \<union> {Fields l ! 1 | l. l \<in> set ls \<and> length (Fields l) = 2}"
      by (rule Cons.IH)
    with True show ?thesis by (auto simp: dom_update Let_def)
  next
    case False
    with Cons.IH [of m] show ?thesis by (auto simp: Let_def)
  qed
qed

lemma render_host_mapping_line:
  "l \<in> set (render_host m h) \<Longrightarrow> \<not> HasPrefix l ''#'' \<Longrightarrow> \<exists>x. l = x @ TAB # hostname h"
  by (auto simp: render_host_def HasPrefix_def split: option.splits if_splits)

lemma rendered_key:
  assumes "l \<in> set (render_hosts m hosts)" "\<not> HasPrefix l ''#''" "length (Fields l) = 2"
    and "\<forall>h \<in> set hosts. token (hostname h)"
  shows "Fields l ! 1 \<in> hostname ` set hosts"
proof -
  from assms(1) obtain h where h: "h \<in> set hosts" "l \<in> set (render_host m h)"
    by (auto simp: render_hosts_def)
  with assms(2) obtain x where l: "l = x @ TAB # hostname h"
    using render_host_mapping_line by blast
  from h assms(4) have "Fields l = Fields x @ [hostname h]"
    by (simp add: l Fields_append_tab_token)
  with assms(3) have "Fields l ! 1 = hostname h"
    by (simp add: nth_append)
  with h show ?thesis by simp
qed

lemma no_mapping_for_absent_name:
  assumes "\<forall>h \<in> set hosts. token (hostname h) \<and> hostname h \<noteq> name"
  shows "map_of (read_mappings (merged_content lines hosts)) name = None"
proof -
  let ?region = "render_hosts (read_mappings lines) hosts"
  have rm: "read_mappings (merged_content lines hosts) =
          parse_mappings [] (filter (\<lambda>l. \<not> HasPrefix l ''#'') ?region)"
    using read_mappings_one_region [of "pre_lines (scan_lines scan_init lines)" ?region]
    by (simp add: merged_content_eq scan_init_sentinel_free render_hosts_no_sentinel)
  have "name \<notin> fst ` set (parse_mappings [] (filter (\<lambda>l. \<not> HasPrefix l ''#'') ?region))"
  proof
    assume "name \<in> fst ` set (parse_mappings [] (filter (\<lambda>l. \<not> HasPrefix l ''#'') ?region))"
    with parse_mappings_keys [of "[]" "filter (\<lambda>l. \<not> HasPrefix l ''#'') ?region"]
    obtain l where l: "l \<in> set ?region" "\<not> HasPrefix l ''#''" "length (Fields l) = 2"
      "name = Fields l ! 1"
      by auto
    with rendered_key [of l "read_mappings lines" hosts] assms
    show False by auto
  qed
  then show ?thesis by (simp add: rm map_of_eq_None_iff)
qed

text \<open>
  Claim C6. A host whose address is \<^verbatim>\<open>MISSING\<close> gets no line, whatever the mappings read
  from the hosts file hold for its name: the region rendered, and the file written, are
  those of the other hosts alone. When the names of the other hosts are fields and differ
  from its name, no line of the file written is read back as a mapping for its name.
\<close>

theorem no_record_omitted:
  "ip_address h = MISSING \<Longrightarrow>
   render_host m h = []
   \<and> render_hosts m (hs @ h # hs') = render_hosts m (hs @ hs')
   \<and> merged_content lines (hs @ h # hs') = merged_content lines (hs @ hs')
   \<and> ((\<forall>h' \<in> set (hs @ hs'). token (hostname h') \<and> hostname h' \<noteq> hostname h) \<longrightarrow>
        map_of (read_mappings (merged_content lines (hs @ h # hs'))) (hostname h) = None)"
proof (intro conjI impI)
  assume mis: "ip_address h = MISSING"
  then show 1: "render_host m h = []" for m
    by (simp add: render_host_def ERROR_def MISSING_def)
  then show 2: "render_hosts m (hs @ h # hs') = render_hosts m (hs @ hs')" for m
    by (simp add: render_hosts_def)
  then show 3: "merged_content lines (hs @ h # hs') = merged_content lines (hs @ hs')"
    by (simp add: merged_content_eq)
  assume "\<forall>h' \<in> set (hs @ hs'). token (hostname h') \<and> hostname h' \<noteq> hostname h"
  then show "map_of (read_mappings (merged_content lines (hs @ h # hs'))) (hostname h) = None"
    using no_mapping_for_absent_name [of "hs @ hs'" "hostname h" lines] by (simp only: 3)
qed

theorem no_record_omitted_witness:
  "render_host [(''api.internal'', ''10.0.0.1'')]
     \<lparr>hostname = ''api.internal'', dns_server = ''10.0.0.53'', ip_address = ''MISSING''\<rparr> = []
   \<and> map_of (read_mappings (merged_content
        [DNSPIN_BEGIN, ''10.0.0.1'' @ [TAB] @ ''api.internal'', DNSPIN_END]
        ([\<lparr>hostname = ''db.internal'', dns_server = ''10.0.0.53'', ip_address = ''203.0.113.9''\<rparr>]
         @ \<lparr>hostname = ''api.internal'', dns_server = ''10.0.0.53'', ip_address = ''MISSING''\<rparr>
         # []))) ''api.internal'' = None"
proof -
  let ?h = "\<lparr>hostname = ''api.internal'', dns_server = ''10.0.0.53'', ip_address = ''MISSING''\<rparr>"
  let ?hs = "[\<lparr>hostname = ''db.internal'', dns_server = ''10.0.0.53'',
               ip_address = ''203.0.113.9''\<rparr>]"
  have mis: "ip_address ?h = MISSING" by (simp add: MISSING_def)
  have others: "\<forall>h' \<in> set (?hs @ []). token (hostname h') \<and> hostname h' \<noteq> hostname ?h"
    by (simp add: token_def ascii_space_def space2_def space3_def)
  note c6 = no_record_omitted [OF mis, of "[(''api.internal'', ''10.0.0.1'')]" ?hs "[]"
      "[DNSPIN_BEGIN, ''10.0.0.1'' @ [TAB] @ ''api.internal'', DNSPIN_END]"]
  from c6 have "render_host [(''api.internal'', ''10.0.0.1'')] ?h = []" by (rule conjunct1)
  moreover from c6 others have "map_of (read_mappings (merged_content
        [DNSPIN_BEGIN, ''10.0.0.1'' @ [TAB] @ ''api.internal'', DNSPIN_END]
        (?hs @ ?h # []))) (hostname ?h) = None"
    by blast
  ultimately show ?thesis by simp
qed

subsection \<open>The temporary file\<close>

text \<open>
  Claim C4 says that the temporary file is created in the directory of the hosts file.
  The source creates it in \<^verbatim>\<open>/tmp\<close>, and the hosts file is in \<^verbatim>\<open>/etc\<close>.
\<close>

theorem temp_file_in_tmp:
  "dir_name (out_name no_faults) = ''/tmp/''
   \<and> dir_name HOSTS_FILE = ''/etc/''
   \<and> dir_name (out_name no_faults) \<noteq> dir_name HOSTS_FILE"
  by (simp add: dir_name_def out_name_def temp_name_def HOSTS_FILE_def no_faults_def)

text \<open>
  Claim C4, amended. When the hosts file is to be rewritten and the temporary file has
  been created, its name starts with \<^verbatim>\<open>/tmp/hosts\<close>. When changing its mode, flushing
  the lines or renaming it fails, \<^verbatim>\<open>writeHostsFile\<close> returns the error, the hosts file is
  as it was and there is no file with the name of the temporary file. When none fails,
  the hosts file has mode 0644 and all the new lines, and there is no file with the name
  of the temporary file either.
\<close>

theorem write_through_temp_file:
  "fs HOSTS_FILE = Some inp \<and> \<not> fails e OpenStep
     \<and> needs_rewrite (read_mappings (content inp)) hosts \<and> \<not> fails e TempFileStep \<longrightarrow>
   HasPrefix (out_name e) ''/tmp/hosts''
   \<and> (fails e ChmodStep \<or> fails e FlushStep \<or> fails e RenameStep \<longrightarrow>
        (\<exists>err. fst (writeHostsFile e hosts fs) = Inl err)
        \<and> snd (writeHostsFile e hosts fs) HOSTS_FILE = fs HOSTS_FILE
        \<and> snd (writeHostsFile e hosts fs) (out_name e) = None)
   \<and> (\<not> fails e ChmodStep \<and> \<not> fails e FlushStep \<and> \<not> fails e RenameStep \<longrightarrow>
        fst (writeHostsFile e hosts fs) = Inr True
        \<and> snd (writeHostsFile e hosts fs) HOSTS_FILE =
            Some \<lparr>mode = MODE_0644, content = merged_content (content inp) hosts\<rparr>
        \<and> snd (writeHostsFile e hosts fs) (out_name e) = None)"
proof (intro impI)
  assume a: "fs HOSTS_FILE = Some inp \<and> \<not> fails e OpenStep
     \<and> needs_rewrite (read_mappings (content inp)) hosts \<and> \<not> fails e TempFileStep"
  let ?fs = "fs(out_name e \<mapsto> \<lparr>mode = MODE_0600, content = []\<rparr>)"
  let ?new = "merged_content (content inp) hosts"
  have u: "writeHostsFile e hosts fs =
      deferred_remove (out_name e) (write_and_rename e (out_name e) ?new ?fs)"
    using a writeHostsFile_unfold [of fs inp e hosts] by simp
  have 1: "HasPrefix (out_name e) ''/tmp/hosts''"
    by (simp add: HasPrefix_def out_name_def temp_name_def)
  have 2: "(\<exists>err. fst (writeHostsFile e hosts fs) = Inl err)
        \<and> snd (writeHostsFile e hosts fs) HOSTS_FILE = fs HOSTS_FILE
        \<and> snd (writeHostsFile e hosts fs) (out_name e) = None"
    if "fails e ChmodStep \<or> fails e FlushStep \<or> fails e RenameStep"
    using write_and_rename_fails [OF that out_name_not_hosts, of e ?new ?fs] out_name_not_hosts [of e]
    by (simp add: u deferred_remove_def)
  have 3: "fst (writeHostsFile e hosts fs) = Inr True
        \<and> snd (writeHostsFile e hosts fs) HOSTS_FILE =
            Some \<lparr>mode = MODE_0644, content = merged_content (content inp) hosts\<rparr>
        \<and> snd (writeHostsFile e hosts fs) (out_name e) = None"
    if "\<not> fails e ChmodStep \<and> \<not> fails e FlushStep \<and> \<not> fails e RenameStep"
    using that out_name_not_hosts [of e]
    by (simp add: u deferred_remove_def write_and_rename_ok)
  from 1 2 3 show "HasPrefix (out_name e) ''/tmp/hosts''
   \<and> (fails e ChmodStep \<or> fails e FlushStep \<or> fails e RenameStep \<longrightarrow>
        (\<exists>err. fst (writeHostsFile e hosts fs) = Inl err)
        \<and> snd (writeHostsFile e hosts fs) HOSTS_FILE = fs HOSTS_FILE
        \<and> snd (writeHostsFile e hosts fs) (out_name e) = None)
   \<and> (\<not> fails e ChmodStep \<and> \<not> fails e FlushStep \<and> \<not> fails e RenameStep \<longrightarrow>
        fst (writeHostsFile e hosts fs) = Inr True
        \<and> snd (writeHostsFile e hosts fs) HOSTS_FILE =
            Some \<lparr>mode = MODE_0644, content = merged_content (content inp) hosts\<rparr>
        \<and> snd (writeHostsFile e hosts fs) (out_name e) = None)"
    by blast
qed

theorem write_through_temp_file_witness:
  "snd (writeHostsFile (no_faults\<lparr>fails := (\<lambda>s. s = FlushStep), flushed := 1\<rparr>)
     [\<lparr>hostname = ''api.internal'', dns_server = ''10.0.0.53'', ip_address = ''203.0.113.5''\<rparr>]
     (only_hosts_file [''127.0.0.1 localhost''])) HOSTS_FILE
     = Some \<lparr>mode = MODE_0644, content = [''127.0.0.1 localhost'']\<rparr>
   \<and> snd (writeHostsFile (no_faults\<lparr>fails := (\<lambda>s. s = FlushStep), flushed := 1\<rparr>)
     [\<lparr>hostname = ''api.internal'', dns_server = ''10.0.0.53'', ip_address = ''203.0.113.5''\<rparr>]
     (only_hosts_file [''127.0.0.1 localhost''])) ''/tmp/hosts421337'' = None
   \<and> snd (writeHostsFile no_faults
     [\<lparr>hostname = ''api.internal'', dns_server = ''10.0.0.53'', ip_address = ''203.0.113.5''\<rparr>]
     (only_hosts_file [''127.0.0.1 localhost''])) HOSTS_FILE
     = Some \<lparr>mode = MODE_0644,
             content = [''127.0.0.1 localhost'', DNSPIN_BEGIN,
                        ''203.0.113.5'' @ [TAB] @ ''api.internal'', DNSPIN_END]\<rparr>"
proof -
  let ?hosts = "[\<lparr>hostname = ''api.internal'', dns_server = ''10.0.0.53'',
                  ip_address = ''203.0.113.5''\<rparr>]"
  let ?inp = "\<lparr>mode = MODE_0644, content = [''127.0.0.1 localhost'']\<rparr>"
  let ?e = "no_faults\<lparr>fails := (\<lambda>s. s = FlushStep), flushed := 1\<rparr>"
  have rm: "read_mappings [''127.0.0.1 localhost''] = []"
    by (simp add: read_mappings_def eval_write eval_fields)
  have nr: "needs_rewrite (read_mappings (content ?inp)) ?hosts"
    by (simp add: rm needs_rewrite_iff)
  have mc: "merged_content [''127.0.0.1 localhost''] ?hosts =
      [''127.0.0.1 localhost'', DNSPIN_BEGIN, ''203.0.113.5'' @ [TAB] @ ''api.internal'', DNSPIN_END]"
    by (simp add: merged_content_def rm) (simp add: eval_write)
  have "snd (writeHostsFile ?e ?hosts (only_hosts_file [''127.0.0.1 localhost''])) HOSTS_FILE
          = Some ?inp
        \<and> snd (writeHostsFile ?e ?hosts (only_hosts_file [''127.0.0.1 localhost'']))
            ''/tmp/hosts421337'' = None"
    using write_through_temp_file [of "only_hosts_file [''127.0.0.1 localhost'']" ?inp ?e ?hosts] nr
    by (simp add: only_hosts_file_def no_faults_def out_name_def temp_name_def)
  moreover
  have "snd (writeHostsFile no_faults ?hosts (only_hosts_file [''127.0.0.1 localhost''])) HOSTS_FILE
     = Some \<lparr>mode = MODE_0644,
             content = [''127.0.0.1 localhost'', DNSPIN_BEGIN,
                        ''203.0.113.5'' @ [TAB] @ ''api.internal'', DNSPIN_END]\<rparr>"
    using write_through_temp_file [of "only_hosts_file [''127.0.0.1 localhost'']" ?inp
        no_faults ?hosts] nr mc
    by (simp add: only_hosts_file_def no_faults_def)
  ultimately show ?thesis by simp
qed

end
